theory Spec2Isabelle
  imports Complex_Main "HOL-Library.AList" "HOL-Library.Multiset"
begin

section \<open>JavaScript numbers\<close>

text \<open>
  A JavaScript \<open>number\<close> is an IEEE double: not-a-number, one of the two infinities, or a
  finite value, which is a real number (the two zeros are the one value \<open>Finite 0\<close>; they
  compare equal and are both falsy). Only operations whose result on doubles is exact are
  defined here: comparisons, \<open>Math.round\<close> (the nearest integer, ties towards
  \<open>+Infinity\<close>, which is \<open>\<lfloor>x + 1/2\<rfloor>\<close>), and subtraction as far as its sign goes
  (rounding and overflow never change the sign of a difference, and the sort comparator
  below reads nothing but the sign).
\<close>

datatype number = NaN | NegInfinity | Finite real | Infinity

fun num_le :: "number \<Rightarrow> number \<Rightarrow> bool" where
  "num_le NaN b = False"
| "num_le a NaN = False"
| "num_le NegInfinity b = True"
| "num_le a Infinity = True"
| "num_le (Finite x) (Finite y) = (x \<le> y)"
| "num_le a b = False"

fun num_lt :: "number \<Rightarrow> number \<Rightarrow> bool" where
  "num_lt NaN b = False"
| "num_lt a NaN = False"
| "num_lt (Finite x) (Finite y) = (x < y)"
| "num_lt Infinity b = False"
| "num_lt a NegInfinity = False"
| "num_lt a b = True"

fun num_sub :: "number \<Rightarrow> number \<Rightarrow> number" where
  "num_sub NaN b = NaN"
| "num_sub a NaN = NaN"
| "num_sub (Finite x) (Finite y) = Finite (x - y)"
| "num_sub Infinity Infinity = NaN"
| "num_sub NegInfinity NegInfinity = NaN"
| "num_sub Infinity b = Infinity"
| "num_sub NegInfinity b = NegInfinity"
| "num_sub a Infinity = NegInfinity"
| "num_sub a NegInfinity = Infinity"

fun Math_round :: "number \<Rightarrow> number" where
  "Math_round (Finite x) = Finite (of_int \<lfloor>x + 1 / 2\<rfloor>)"
| "Math_round a = a"

text \<open>
  \<open>Array.prototype.sort(compareFn)\<close>: a stable sort; \<open>compareFn(a, b) > 0\<close> puts \<open>a\<close>
  after \<open>b\<close>, and a comparator result of \<open>NaN\<close> counts as \<open>0\<close>. Insertion from the right
  end keeps equal elements in their original order.
\<close>

fun insert_by :: "('a \<Rightarrow> 'a \<Rightarrow> number) \<Rightarrow> 'a \<Rightarrow> 'a list \<Rightarrow> 'a list" where
  "insert_by compareFn x [] = [x]"
| "insert_by compareFn x (y # ys) =
     (if num_lt (Finite 0) (compareFn x y) then y # insert_by compareFn x ys else x # y # ys)"

fun Array_sort :: "('a \<Rightarrow> 'a \<Rightarrow> number) \<Rightarrow> 'a list \<Rightarrow> 'a list" where
  "Array_sort compareFn [] = []"
| "Array_sort compareFn (x # xs) = insert_by compareFn x (Array_sort compareFn xs)"

section \<open>Domain logic: distances and nearby filtering\<close>

record GeoPoint =
  lat :: number
  lng :: number

datatype PresenceStatus = nearby | in_range | out_of_range | unknown

record ProfileLocation =
  profileId :: string
  location :: GeoPoint

text \<open>
  A distance label is the text \<open>formatDistance\<close> builds: \<open>Metres n\<close> is the decimal text of
  \<open>n\<close> followed by \<open>m\<close>; \<open>Kilometres d\<close> is \<open>(d / 1000).toFixed(1)\<close> followed by \<open>km\<close>.
\<close>

datatype distance_label = Metres number | Kilometres number

record PresenceRecord =
  profileId :: string
  location :: GeoPoint
  distanceMeters :: number
  distanceLabel :: distance_label
  status :: PresenceStatus

definition classifyDistance :: "number \<Rightarrow> number \<Rightarrow> number \<Rightarrow> PresenceStatus" where
  "classifyDistance distanceMeters' bleRange maxRange =
     (if num_le distanceMeters' bleRange then nearby
      else if num_le distanceMeters' maxRange then in_range
      else out_of_range)"

definition formatDistance :: "number \<Rightarrow> distance_label" where
  "formatDistance meters =
     (if num_lt meters (Finite 1000) then Metres (Math_round meters) else Kilometres meters)"

text \<open>
  \<open>findNearby(myPosition, candidates, maxRadiusMeters, bleRangeMeters)\<close>. Its first
  argument here is \<open>calculateDistance\<close>, the haversine function of the same module, which is
  floating-point trigonometry: \<open>findNearby\<close> is embedded for whatever number that function
  returns on each pair of points, \<open>NaN\<close> included.
\<close>

definition findNearby ::
  "(GeoPoint \<Rightarrow> GeoPoint \<Rightarrow> number) \<Rightarrow> GeoPoint \<Rightarrow> ProfileLocation list \<Rightarrow> number \<Rightarrow> number
     \<Rightarrow> PresenceRecord list" where
  "findNearby calculateDistance myPosition candidates maxRadiusMeters bleRangeMeters =
     Array_sort (\<lambda>a b. num_sub (distanceMeters a) (distanceMeters b))
       (filter (\<lambda>r. num_le (distanceMeters r) maxRadiusMeters)
         (map (\<lambda>c. let dist = calculateDistance myPosition (ProfileLocation.location c)
                    in \<lparr> PresenceRecord.profileId = ProfileLocation.profileId c,
                         PresenceRecord.location = ProfileLocation.location c,
                         distanceMeters = Math_round dist,
                         distanceLabel = formatDistance dist,
                         status = classifyDistance dist bleRangeMeters maxRadiusMeters \<rparr>)
              candidates))"

section \<open>Consent records (domain logic)\<close>

text \<open>
  The interface \<open>LocationConsent\<close>. The optional field \<open>revokedAt\<close> is \<open>None\<close> when the
  property is absent. Timestamps are the strings that \<open>new Date().toISOString()\<close> returns;
  the clock is an input of every function that reads it.
\<close>

record LocationConsent =
  profileId :: string
  locationTracking :: bool
  bleDiscovery :: bool
  grantedAt :: string
  revokedAt :: "string option"

text \<open>
  \<open>createConsent(profileId, opts)\<close>: the two options default to \<open>false\<close> when they are
  undefined (\<open>??\<close>).
\<close>

definition createConsent :: "string \<Rightarrow> string \<Rightarrow> bool option \<Rightarrow> bool option \<Rightarrow> LocationConsent" where
  "createConsent now pid optLocationTracking optBleDiscovery =
     \<lparr> LocationConsent.profileId = pid,
       locationTracking = (case optLocationTracking of None \<Rightarrow> False | Some b \<Rightarrow> b),
       bleDiscovery = (case optBleDiscovery of None \<Rightarrow> False | Some b \<Rightarrow> b),
       grantedAt = now,
       revokedAt = None \<rparr>"

text \<open>
  \<open>isConsentValid(consent)\<close>: \<open>null\<close> is \<open>None\<close>. The test \<open>if (consent.revokedAt)\<close> is a
  truthiness test: an absent field and the empty string are both falsy.
\<close>

definition isConsentValid :: "'a LocationConsent_scheme option \<Rightarrow> bool" where
  "isConsentValid consent =
     (case consent of
        None \<Rightarrow> False
      | Some c \<Rightarrow>
          (case revokedAt c of
             Some (ch # rest) \<Rightarrow> False
           | _ \<Rightarrow> locationTracking c \<or> bleDiscovery c))"

text \<open>
  \<open>revokeConsent(consent)\<close>: the spread \<open>...consent\<close> copies every field, then three of them
  are overwritten.
\<close>

definition revokeConsent :: "string \<Rightarrow> 'a LocationConsent_scheme \<Rightarrow> 'a LocationConsent_scheme" where
  "revokeConsent now consent =
     consent \<lparr> locationTracking := False, bleDiscovery := False, revokedAt := Some now \<rparr>"

section \<open>The broadcast layer (HTTP handlers over the channel registry)\<close>

subsection \<open>Request bodies\<close>

text \<open>
  What \<open>c.req.json()\<close> returns: any JSON value. \<open>JUndefined\<close> is the result of reading a
  property that is not there. An object is the list of its own properties, looked up by
  name.
\<close>

datatype js_value =
    JUndefined
  | JNull
  | JBool bool
  | JNumber number
  | JString string
  | JArray "js_value list"
  | JObject "(string \<times> js_value) list"

fun truthy :: "js_value \<Rightarrow> bool" where
  "truthy JUndefined = False"
| "truthy JNull = False"
| "truthy (JBool b) = b"
| "truthy (JNumber n) = (n \<noteq> NaN \<and> n \<noteq> Finite 0)"
| "truthy (JString s) = (s \<noteq> [])"
| "truthy (JArray vs) = True"
| "truthy (JObject kvs) = True"

fun nullish :: "js_value \<Rightarrow> bool" where
  "nullish JUndefined = True"
| "nullish JNull = True"
| "nullish v = False"

text \<open>
  \<open>v.key\<close> for a value \<open>v\<close> that is not nullish, and for the property names this program
  reads (none of them is a built-in property of strings, numbers, booleans or arrays). On
  \<open>null\<close> and \<open>undefined\<close> the read throws; every caller below tests \<open>nullish\<close> first.
\<close>

fun get :: "js_value \<Rightarrow> string \<Rightarrow> js_value" where
  "get (JObject kvs) key = (case map_of kvs key of None \<Rightarrow> JUndefined | Some v \<Rightarrow> v)"
| "get v key = JUndefined"

text \<open>Optional chaining, \<open>v?.key\<close>.\<close>

definition opt_get :: "js_value \<Rightarrow> string \<Rightarrow> js_value" where
  "opt_get v key = (if nullish v then JUndefined else get v key)"

datatype response =
    Response nat js_value
  | Uncaught_TypeError

subsection \<open>Registry, controllers and frames\<close>

text \<open>
  A frame is the byte string
  \<open>event: <name>\ndata: <JSON.stringify(payload)>\n\n\<close> of one server-sent event, kept as
  its event name and its payload.
\<close>

datatype frame = Frame string js_value

text \<open>
  The module state. \<open>channels\<close> is the \<open>Map\<close> from channel id to a \<open>Set\<close> object, in
  insertion order; a \<open>Set\<close> object is a reference into \<open>store\<close>, which holds the members of
  each set in insertion order (the stream handler's closures keep the reference, not the
  channel id). A controller is a number; \<open>writable st c\<close> says whether
  \<open>controller.enqueue\<close> on \<open>c\<close> succeeds or throws, and \<open>pushes\<close> is the trace of all
  \<open>enqueue\<close> calls made so far: controller, frame, and whether the sink took the frame.
  \<open>encodings\<close> is the trace of all \<open>new TextEncoder().encode(...)\<close> calls made so far: the
  frame each call produced.
\<close>

record sse_state =
  channels :: "(string \<times> nat) list"
  store :: "nat \<Rightarrow> nat list"
  next_set :: nat
  next_controller :: nat
  writable :: "nat \<Rightarrow> bool"
  pushes :: "(nat \<times> frame \<times> bool) list"
  encodings :: "frame list"

definition initial :: sse_state where
  "initial = \<lparr> channels = [], store = (\<lambda>r. []), next_set = 0, next_controller = 0,
               writable = (\<lambda>c. False), pushes = [], encodings = [] \<rparr>"

text \<open>\<open>Set.prototype.add\<close> and \<open>Set.prototype.delete\<close> on the member list.\<close>

definition set_add :: "nat \<Rightarrow> nat list \<Rightarrow> nat list" where
  "set_add c cs = (if c \<in> set cs then cs else cs @ [c])"

definition set_delete :: "nat \<Rightarrow> nat list \<Rightarrow> nat list" where
  "set_delete c cs = removeAll c cs"

text \<open>
  \<open>controller.enqueue(frame)\<close>: the result is \<open>False\<close> when the call throws. Either way the
  call is recorded in the trace.
\<close>

definition enqueue :: "nat \<Rightarrow> frame \<Rightarrow> sse_state \<Rightarrow> bool \<times> sse_state" where
  "enqueue controller encoded st =
     (writable st controller,
      st \<lparr> pushes := pushes st @ [(controller, encoded, writable st controller)] \<rparr>)"

text \<open>
  \<open>new TextEncoder().encode(text)\<close> for the text of a frame: the result is the frame, and
  the call is recorded in the trace.
\<close>

definition encode :: "frame \<Rightarrow> sse_state \<Rightarrow> frame \<times> sse_state" where
  "encode text st = (text, st \<lparr> encodings := encodings st @ [text] \<rparr>)"

text \<open>
  \<open>channels.get(key)\<close>. Only \<open>getOrCreateChannel\<close> inserts keys, and its keys are strings
  (route parameters), so a key that is not a string is never found.
\<close>

definition channels_get :: "sse_state \<Rightarrow> js_value \<Rightarrow> nat option" where
  "channels_get st key = (case key of JString s \<Rightarrow> map_of (channels st) s | _ \<Rightarrow> None)"

definition getOrCreateChannel :: "string \<Rightarrow> sse_state \<Rightarrow> nat \<times> sse_state" where
  "getOrCreateChannel channelId st =
     (case map_of (channels st) channelId of
        Some subs \<Rightarrow> (subs, st)
      | None \<Rightarrow>
          (let subs = next_set st
           in (subs, st \<lparr> channels := AList.update channelId subs (channels st),
                          store := (store st)(subs := []),
                          next_set := Suc subs \<rparr>)))"

subsection \<open>POST /api/proximity/broadcast\<close>

text \<open>
  The two guards at the head of the handler; \<open>None\<close> means that neither returned. Reading
  \<open>body.channelId\<close> on a body that is \<open>null\<close> throws, which the framework answers with an
  internal error.
\<close>

definition required_message :: string where
  \<open>required_message = ''"channelId" and "profileId" are required''\<close>

definition location_message :: string where
  \<open>location_message = ''"location" must have lat and lng''\<close>

definition validate :: "js_value \<Rightarrow> response option" where
  "validate body =
     (if nullish body then Some Uncaught_TypeError
      else if \<not> truthy (get body ''channelId'') \<or> \<not> truthy (get body ''profileId'')
        then Some (Response 400 (JObject [(''error'', JString required_message)]))
      else if \<not> truthy (opt_get (get body ''location'') ''lat'')
              \<or> \<not> truthy (opt_get (get body ''location'') ''lng'')
        then Some (Response 400 (JObject [(''error'', JString location_message)]))
      else None)"

definition broadcast_event :: "string \<Rightarrow> js_value \<Rightarrow> js_value" where
  "broadcast_event now body =
     JObject [(''profileId'', get body ''profileId''),
              (''location'', get body ''location''),
              (''timestamp'', JString now),
              (''metadata'', get body ''metadata'')]"

text \<open>
  The loop \<open>for (const controller of subs)\<close> with its \<open>try\<close>/\<open>catch\<close>. The iteration deletes
  nothing but the element it is at, so it visits the members the set had when the loop
  began, each once, in insertion order.
\<close>

fun fan_out :: "frame \<Rightarrow> nat \<Rightarrow> nat list \<Rightarrow> sse_state \<Rightarrow> sse_state" where
  "fan_out encoded subs [] st = st"
| "fan_out encoded subs (controller # rest) st =
     (case enqueue controller encoded st of
        (True, st') \<Rightarrow> fan_out encoded subs rest st'
      | (False, st') \<Rightarrow>
          fan_out encoded subs rest
            (st' \<lparr> store := (store st')(subs := set_delete controller (store st' subs)) \<rparr>))"

definition broadcast :: "string \<Rightarrow> js_value \<Rightarrow> sse_state \<Rightarrow> response \<times> sse_state" where
  "broadcast now body st =
     (case validate body of
        Some failure \<Rightarrow> (failure, st)
      | None \<Rightarrow>
          (let event = broadcast_event now body;
               subs = channels_get st (get body ''channelId'');
               subscriberCount = (case subs of None \<Rightarrow> 0 | Some s \<Rightarrow> length (store st s));
               st' = (case subs of
                        None \<Rightarrow> st
                      | Some s \<Rightarrow>
                          if length (store st s) > 0
                          then (let (encoded, st1) = encode (Frame ''position'' event) st
                                in fan_out encoded s (store st1 s) st1)
                          else st)
           in (Response 200
                 (JObject [(''published'', JBool True),
                           (''channelId'', get body ''channelId''),
                           (''subscriberCount'', JNumber (Finite (real subscriberCount)))]),
               st')))"

subsection \<open>GET /api/proximity/stream/:channelId\<close>

text \<open>
  The handler up to the end of \<open>start(controller)\<close>, which the \<open>ReadableStream\<close>
  constructor runs at once with a new controller whose stream is readable. The result is
  what the closures \<open>start\<close> and \<open>cancel\<close> hold: the set object and the controller.
\<close>

definition welcomeMsg :: "string \<Rightarrow> nat \<Rightarrow> string \<Rightarrow> frame" where
  "welcomeMsg channelId subscriberCount now =
     Frame ''connected''
       (JObject [(''channelId'', JString channelId),
                 (''subscriberCount'', JNumber (Finite (real subscriberCount))),
                 (''timestamp'', JString now)])"

definition stream :: "string \<Rightarrow> string \<Rightarrow> sse_state \<Rightarrow> (nat \<times> nat) \<times> sse_state" where
  "stream now channelId st =
     (let (subs, st1) = getOrCreateChannel channelId st;
          controller = next_controller st1;
          st2 = st1 \<lparr> next_controller := Suc controller,
                      writable := (writable st1)(controller := True) \<rparr>;
          st3 = st2 \<lparr> store := (store st2)(subs := set_add controller (store st2 subs)) \<rparr>;
          (encoded, st3') = encode (welcomeMsg channelId (length (store st3 subs)) now) st3;
          (accepted, st4) = enqueue controller encoded st3'
      in ((subs, controller), st4))"

text \<open>
  The \<open>cancel\<close> callback of the stream opened on \<open>channelId\<close>, whose closure holds the set
  \<open>subs\<close>. Its argument is whatever value the callback is called with: the source names
  the parameter \<open>controller\<close> and casts it, but the streams runtime calls the callback with
  the reason of the cancellation, never with the stream's controller. A reason is a
  member of no set; any number that is in no set stands for it.
\<close>

definition cancel :: "string \<Rightarrow> nat \<Rightarrow> nat \<Rightarrow> sse_state \<Rightarrow> sse_state" where
  "cancel channelId subs controller st =
     (let st1 = st \<lparr> store := (store st)(subs := set_delete controller (store st subs)) \<rparr>
      in if length (store st1 subs) = 0
         then st1 \<lparr> channels := AList.delete channelId (channels st1) \<rparr>
         else st1)"

subsection \<open>GET /api/proximity/channels\<close>

definition channelList :: "sse_state \<Rightarrow> (string \<times> nat) list" where
  "channelList st = map (\<lambda>(id, subs). (id, length (store st subs))) (channels st)"

definition list_channels :: "sse_state \<Rightarrow> response" where
  "list_channels st =
     Response 200
       (JObject [(''channels'',
                  JArray (map (\<lambda>(id, n). JObject [(''channelId'', JString id),
                                                   (''subscriberCount'', JNumber (Finite (real n)))])
                              (channelList st))),
                 (''total'', JNumber (Finite (real (length (channelList st)))))])"

subsection \<open>Runs of the service\<close>

text \<open>
  What can happen to the module state: a client opens a stream, a client publishes, the
  \<open>cancel\<close> callback of some stream runs (on any argument), or the sink of a controller
  stops taking frames (from then on \<open>enqueue\<close> on it throws). A run applies a list of these
  from left to right.
\<close>

datatype request =
    Stream string string
  | Broadcast string js_value
  | Cancel string nat nat
  | Sink_closed nat

fun step :: "request \<Rightarrow> sse_state \<Rightarrow> sse_state" where
  "step (Stream now channelId) st = snd (stream now channelId st)"
| "step (Broadcast now body) st = snd (broadcast now body st)"
| "step (Cancel channelId subs controller) st = cancel channelId subs controller st"
| "step (Sink_closed controller) st = st \<lparr> writable := (writable st)(controller := False) \<rparr>"

fun run :: "request list \<Rightarrow> sse_state \<Rightarrow> sse_state" where
  "run [] st = st"
| "run (r # rs) st = run rs (step r st)"

text \<open>The frames handed to \<open>enqueue\<close> on one controller so far, oldest first.\<close>

definition frames_of :: "nat \<Rightarrow> sse_state \<Rightarrow> frame list" where
  "frames_of controller st = map (\<lambda>p. fst (snd p)) (filter (\<lambda>p. fst p = controller) (pushes st))"

fun frame_name :: "frame \<Rightarrow> string" where
  "frame_name (Frame name payload) = name"

text \<open>
  Controllers are numbered as they are created: in every state a run reaches, the
  controllers in the sets and in the trace are older than the next one to be created.
\<close>

definition fresh :: "sse_state \<Rightarrow> bool" where
  "fresh st \<longleftrightarrow> (\<forall>p \<in> set (pushes st). fst p < next_controller st)
              \<and> (\<forall>r. \<forall>c \<in> set (store st r). c < next_controller st)"

subsection \<open>Sample requests and states\<close>

text \<open>
  A well-formed publish request for a channel, the state after two clients have
  subscribed to channel \<open>c2\<close>, and that state once the sink of the first has stopped taking
  frames.
\<close>

definition position_request :: "string \<Rightarrow> js_value" where
  "position_request channelId =
     JObject [(''channelId'', JString channelId),
              (''profileId'', JString ''p1''),
              (''location'', JObject [(''lat'', JNumber (Finite (5252 / 100))),
                                      (''lng'', JNumber (Finite (13405 / 1000)))])]"

definition two_subscribers :: sse_state where
  "two_subscribers = snd (stream ''t1'' ''c2'' (snd (stream ''t0'' ''c2'' initial)))"

definition two_subscribers_one_dead :: sse_state where
  "two_subscribers_one_dead = two_subscribers \<lparr> writable := (writable two_subscribers)(0 := False) \<rparr>"


text \<open>
  A stand-in for the distance function (the difference of the latitudes) and four
  candidates, one of them with a latitude that is not a number.
\<close>

definition along_latitude :: "GeoPoint \<Rightarrow> GeoPoint \<Rightarrow> number" where
  "along_latitude a b = num_sub (lat b) (lat a)"

definition origin :: GeoPoint where
  "origin = \<lparr> lat = Finite 0, lng = Finite 0 \<rparr>"

definition sample_candidates :: "ProfileLocation list" where
  "sample_candidates =
     [\<lparr> ProfileLocation.profileId = ''far'',
        ProfileLocation.location = \<lparr> lat = Finite 7000, lng = Finite 0 \<rparr> \<rparr>,
      \<lparr> ProfileLocation.profileId = ''mid'',
        ProfileLocation.location = \<lparr> lat = Finite (24004 / 10), lng = Finite 0 \<rparr> \<rparr>,
      \<lparr> ProfileLocation.profileId = ''lost'',
        ProfileLocation.location = \<lparr> lat = NaN, lng = Finite 0 \<rparr> \<rparr>,
      \<lparr> ProfileLocation.profileId = ''near'',
        ProfileLocation.location = \<lparr> lat = Finite (25 / 2), lng = Finite 0 \<rparr> \<rparr>]"

section \<open>Theorems\<close>

subsection \<open>The fan-out loop\<close>

lemma fan_out_channels: "channels (fan_out e s cs st) = channels st"
  by (induction cs arbitrary: st) (auto simp: enqueue_def split: bool.splits)

lemma fan_out_writable: "writable (fan_out e s cs st) = writable st"
  by (induction cs arbitrary: st) (auto simp: enqueue_def split: bool.splits)

lemma fan_out_next_controller: "next_controller (fan_out e s cs st) = next_controller st"
  by (induction cs arbitrary: st) (auto simp: enqueue_def split: bool.splits)

lemma fan_out_pushes:
  "pushes (fan_out e s cs st) = pushes st @ map (\<lambda>c. (c, e, writable st c)) cs"
  by (induction cs arbitrary: st) (auto simp: enqueue_def split: bool.splits)


lemma fan_out_store:
  "store (fan_out e s cs st) =
     (store st)(s := filter (\<lambda>c. \<not> (c \<in> set cs \<and> \<not> writable st c)) (store st s))"
proof (induction cs arbitrary: st)
  case Nil
  then show ?case by simp
next
  case (Cons c cs)
  show ?case
  proof (cases "writable st c")
    case True
    then show ?thesis
      using Cons.IH [of "st\<lparr>pushes := pushes st @ [(c, e, True)]\<rparr>"]
      by (auto simp: enqueue_def intro!: filter_cong)
  next
    case False
    then show ?thesis
      using Cons.IH [of "st\<lparr>pushes := pushes st @ [(c, e, False)],
                          store := (store st)(s := set_delete c (store st s))\<rparr>"]
      by (auto simp: enqueue_def set_delete_def removeAll_filter_not_eq intro!: filter_cong)
  qed
qed

lemma fan_out_store_all:
  "store (fan_out e s (store st s) st) = (store st)(s := filter (writable st) (store st s))"
  by (simp add: fan_out_store cong: filter_cong)

lemma broadcast_accepted:
  assumes "validate body = None"
  shows "broadcast now body st =
    (Response 200
       (JObject [(''published'', JBool True), (''channelId'', get body ''channelId''),
                 (''subscriberCount'', JNumber (Finite (real
                     (case channels_get st (get body ''channelId'') of None \<Rightarrow> 0
                      | Some s \<Rightarrow> length (store st s)))))]),
     (case channels_get st (get body ''channelId'') of None \<Rightarrow> st
      | Some s \<Rightarrow>
          if store st s = [] then st
          else fan_out (Frame ''position'' (broadcast_event now body)) s (store st s)
                 (st \<lparr> encodings := encodings st @ [Frame ''position'' (broadcast_event now body)] \<rparr>)))"
  using assms by (auto simp: broadcast_def Let_def encode_def split: option.splits)

lemma broadcast_response:
  assumes "validate body = None" and "channels_get st (get body ''channelId'') = Some s"
  shows "fst (broadcast now body st) =
           Response 200
             (JObject [(''published'', JBool True), (''channelId'', get body ''channelId''),
                       (''subscriberCount'', JNumber (Finite (real (length (store st s)))))])"
  using assms by (simp add: broadcast_accepted)

lemma broadcast_store:
  assumes "validate body = None" and "channels_get st (get body ''channelId'') = Some s"
  shows "store (snd (broadcast now body st)) = (store st)(s := filter (writable st) (store st s))"
proof (cases "store st s = []")
  case True
  then have "(store st)(s := []) = store st"
    by (simp add: fun_upd_idem_iff)
  then show ?thesis using assms True by (simp add: broadcast_accepted)
next
  case False
  then show ?thesis using assms by (simp add: broadcast_accepted fan_out_store cong: filter_cong)
qed

lemma broadcast_pushes:
  assumes "validate body = None" and "channels_get st (get body ''channelId'') = Some s"
  shows "pushes (snd (broadcast now body st)) =
           pushes st @ map (\<lambda>c. (c, Frame ''position'' (broadcast_event now body), writable st c))
                          (store st s)"
proof (cases "store st s = []")
  case True
  then show ?thesis using assms by (simp add: broadcast_accepted)
next
  case False
  then show ?thesis using assms by (simp add: broadcast_accepted fan_out_pushes)
qed


lemma broadcast_only_channel:
  assumes "validate body = None" and "channels_get st (get body ''channelId'') = Some s"
    and "channels st = [(channelId, s)]"
  shows "channels (snd (broadcast now body st)) = [(channelId, s)]"
    and "store (snd (broadcast now body st)) s = filter (writable st) (store st s)"
  using assms by (simp_all add: broadcast_accepted fan_out_channels fan_out_store cong: filter_cong)

lemma broadcast_channels: "channels (snd (broadcast now body st)) = channels st"
proof (cases "validate body")
  case (Some failure)
  then show ?thesis by (simp add: broadcast_def)
next
  case None
  then show ?thesis
    by (cases "channels_get st (get body ''channelId'')")
       (simp_all add: broadcast_accepted fan_out_channels)
qed


subsection \<open>Facts about the sample requests and states\<close>

lemma position_request_valid: "channelId \<noteq> [] \<Longrightarrow> validate (position_request channelId) = None"
  by (simp add: validate_def position_request_def opt_get_def)

lemma position_request_channelId: "get (position_request channelId) ''channelId'' = JString channelId"
  by (simp add: position_request_def)

lemmas sample_defs =
  two_subscribers_def stream_def getOrCreateChannel_def initial_def enqueue_def encode_def
  set_add_def Let_def

lemma two_subscribers_facts:
  "channels two_subscribers = [(''c2'', 0)]"
  "store two_subscribers 0 = [0, Suc 0]"
  "pushes two_subscribers
     = [(0, welcomeMsg ''c2'' (Suc 0) ''t0'', True),
        (Suc 0, welcomeMsg ''c2'' (Suc (Suc 0)) ''t1'', True)]"
  "writable two_subscribers (Suc 0) = True"
  by (simp_all add: sample_defs)

lemma two_subscribers_channels: "channels two_subscribers_one_dead = [(''c2'', 0)]"
  by (simp add: two_subscribers_one_dead_def two_subscribers_facts)

lemma two_subscribers_store: "store two_subscribers_one_dead 0 = [0, Suc 0]"
  by (simp add: two_subscribers_one_dead_def two_subscribers_facts)

lemma two_subscribers_writable:
  "writable two_subscribers_one_dead 0 = False" "writable two_subscribers_one_dead (Suc 0) = True"
  by (simp_all add: two_subscribers_one_dead_def two_subscribers_facts)

lemma two_subscribers_lookup:
  "channels_get two_subscribers_one_dead (JString ''c2'') = Some 0"
  by (simp add: channels_get_def two_subscribers_channels)

subsection \<open>Publishing\<close>

text \<open>
  C3. A publish that passes validation, to a channel id that has no entry in the
  registry, answers 200 with \<open>published: true\<close> and \<open>subscriberCount: 0\<close> and leaves the
  whole state as it was: no set changes, no frame is pushed, no entry is created, and the
  enumerator does not list the channel id afterwards.
\<close>

theorem broadcast_unknown_channel:
  assumes "validate body = None"
    and "channels_get st (get body ''channelId'') = None"
  shows "broadcast now body st =
           (Response 200
              (JObject [(''published'', JBool True), (''channelId'', get body ''channelId''),
                        (''subscriberCount'', JNumber (Finite 0))]), st)
         \<and> channelList (snd (broadcast now body st)) = channelList st
         \<and> (\<forall>s. get body ''channelId'' = JString s
                \<longrightarrow> s \<notin> fst ` set (channelList (snd (broadcast now body st))))"
proof -
  have unchanged: "broadcast now body st =
           (Response 200
              (JObject [(''published'', JBool True), (''channelId'', get body ''channelId''),
                        (''subscriberCount'', JNumber (Finite 0))]), st)"
    using assms by (simp add: broadcast_accepted)
  have "s \<notin> fst ` set (channelList st)" if "get body ''channelId'' = JString s" for s
  proof -
    have "map_of (channels st) s = None"
      using assms(2) that by (simp add: channels_get_def)
    then have "s \<notin> fst ` set (channels st)"
      by (simp add: map_of_eq_None_iff)
    moreover have "fst ` set (channelList st) = fst ` set (channels st)"
      by (force simp: channelList_def)
    ultimately show ?thesis by simp
  qed
  with unchanged show ?thesis by simp
qed

theorem broadcast_unknown_channel_witness:
  "validate (position_request ''ghost'') = None
   \<and> channels_get two_subscribers_one_dead (get (position_request ''ghost'') ''channelId'') = None
   \<and> broadcast ''t2'' (position_request ''ghost'') two_subscribers_one_dead =
         (Response 200
            (JObject [(''published'', JBool True), (''channelId'', JString ''ghost''),
                      (''subscriberCount'', JNumber (Finite 0))]),
          two_subscribers_one_dead)
   \<and> ''ghost'' \<notin> fst ` set (channelList
         (snd (broadcast ''t2'' (position_request ''ghost'') two_subscribers_one_dead)))"
proof -
  have v: "validate (position_request ''ghost'') = None"
    by (simp add: position_request_valid)
  have a: "channels_get two_subscribers_one_dead (get (position_request ''ghost'') ''channelId'') = None"
    by (simp add: channels_get_def two_subscribers_channels position_request_channelId)
  note t = broadcast_unknown_channel [OF v a, of "''t2''"]
  from t have "\<forall>s. get (position_request ''ghost'') ''channelId'' = JString s
      \<longrightarrow> s \<notin> fst ` set (channelList
            (snd (broadcast ''t2'' (position_request ''ghost'') two_subscribers_one_dead)))"
    by blast
  then have absent: "''ghost'' \<notin> fst ` set (channelList
         (snd (broadcast ''t2'' (position_request ''ghost'') two_subscribers_one_dead)))"
    by (simp add: position_request_channelId)
  from t have "broadcast ''t2'' (position_request ''ghost'') two_subscribers_one_dead =
         (Response 200
            (JObject [(''published'', JBool True), (''channelId'', JString ''ghost''),
                      (''subscriberCount'', JNumber (Finite 0))]),
          two_subscribers_one_dead)"
    by (simp add: position_request_channelId)
  with v a absent show ?thesis by blast
qed




text \<open>
  C5. The \<open>subscriberCount\<close> of the response is the size the channel's set had at the
  lookup, whatever happens to the pushes: the set itself is afterwards smaller by the
  number of members whose sink refused the frame.
\<close>

theorem broadcast_count_before_removals:
  assumes "validate body = None"
    and "channels_get st (get body ''channelId'') = Some s"
  shows "fst (broadcast now body st) =
           Response 200
             (JObject [(''published'', JBool True), (''channelId'', get body ''channelId''),
                       (''subscriberCount'', JNumber (Finite (real (length (store st s)))))])
         \<and> length (store (snd (broadcast now body st)) s)
             = length (store st s) - length (filter (\<lambda>c. \<not> writable st c) (store st s))"
proof -
  have "length (filter (writable st) (store st s))
          + length (filter (\<lambda>c. \<not> writable st c) (store st s))
        = length (store st s)"
    by (rule sum_length_filter_compl)
  then show ?thesis
    using assms by (simp add: broadcast_response broadcast_store)
qed

theorem broadcast_count_before_removals_witness:
  "validate (position_request ''c2'') = None
   \<and> channels_get two_subscribers_one_dead (get (position_request ''c2'') ''channelId'') = Some 0
   \<and> fst (broadcast ''t2'' (position_request ''c2'') two_subscribers_one_dead) =
           Response 200
             (JObject [(''published'', JBool True), (''channelId'', JString ''c2''),
                       (''subscriberCount'', JNumber (Finite 2))])
   \<and> length (store (snd (broadcast ''t2'' (position_request ''c2'') two_subscribers_one_dead)) 0) = 1"
proof -
  have v: "validate (position_request ''c2'') = None"
    by (simp add: position_request_valid)
  have a: "channels_get two_subscribers_one_dead (get (position_request ''c2'') ''channelId'') = Some 0"
    by (simp add: position_request_channelId two_subscribers_lookup)
  show ?thesis
    using broadcast_count_before_removals [OF v a, of "''t2''"] v a
    by (simp add: position_request_channelId two_subscribers_store two_subscribers_writable)
qed

text \<open>
  C6. In a publish that passes validation, every member of the channel's set whose sink
  refuses the frame is removed from the set, every member whose sink takes it stays and
  has the frame delivered, whatever the other sinks did; no other set and no registry
  entry changes; and the response is the same 200 with \<open>published: true\<close> as without any
  failure.
\<close>

theorem broadcast_drops_dead_subscribers:
  assumes "validate body = None"
    and "channels_get st (get body ''channelId'') = Some s"
  shows "store (snd (broadcast now body st)) s = filter (writable st) (store st s)
         \<and> (\<forall>c \<in> set (store st s). writable st c \<longrightarrow>
               (c, Frame ''position'' (broadcast_event now body), True)
                 \<in> set (pushes (snd (broadcast now body st))))
         \<and> (\<forall>c \<in> set (store st s). \<not> writable st c \<longrightarrow>
               c \<notin> set (store (snd (broadcast now body st)) s))
         \<and> (\<forall>r. r \<noteq> s \<longrightarrow> store (snd (broadcast now body st)) r = store st r)
         \<and> channels (snd (broadcast now body st)) = channels st
         \<and> fst (broadcast now body st) =
             Response 200
               (JObject [(''published'', JBool True), (''channelId'', get body ''channelId''),
                         (''subscriberCount'', JNumber (Finite (real (length (store st s)))))])"
  using assms
  by (auto simp: broadcast_response broadcast_store broadcast_pushes broadcast_channels)

theorem broadcast_drops_dead_subscribers_witness:
  "validate (position_request ''c2'') = None
   \<and> channels_get two_subscribers_one_dead (get (position_request ''c2'') ''channelId'') = Some 0
   \<and> store two_subscribers_one_dead 0 = [0, 1]
   \<and> \<not> writable two_subscribers_one_dead 0 \<and> writable two_subscribers_one_dead 1
   \<and> store (snd (broadcast ''t2'' (position_request ''c2'') two_subscribers_one_dead)) 0 = [1]
   \<and> (1, Frame ''position'' (broadcast_event ''t2'' (position_request ''c2'')), True)
         \<in> set (pushes (snd (broadcast ''t2'' (position_request ''c2'') two_subscribers_one_dead)))
   \<and> (\<exists>payload. fst (broadcast ''t2'' (position_request ''c2'') two_subscribers_one_dead)
                   = Response 200 payload)"
proof -
  have v: "validate (position_request ''c2'') = None"
    by (simp add: position_request_valid)
  have a: "channels_get two_subscribers_one_dead (get (position_request ''c2'') ''channelId'') = Some 0"
    by (simp add: position_request_channelId two_subscribers_lookup)
  show ?thesis
    using broadcast_drops_dead_subscribers [OF v a, of "''t2''"] v a
    by (simp add: two_subscribers_store two_subscribers_writable)
qed

subsection \<open>Subscribing\<close>

lemma fresh_initial: "fresh initial"
  by (simp add: fresh_def initial_def)

lemma broadcast_shape:
  "\<exists>cs. set cs \<subseteq> (\<Union>r. set (store st r))
     \<and> pushes (snd (broadcast now body st))
          = pushes st @ map (\<lambda>c. (c, Frame ''position'' (broadcast_event now body), writable st c)) cs"
proof (cases "validate body")
  case (Some failure)
  then show ?thesis
    by (intro exI [of _ "[]"]) (simp add: broadcast_def)
next
  case None
  show ?thesis
  proof (cases "channels_get st (get body ''channelId'')")
    case n: None
    then show ?thesis
      using None by (intro exI [of _ "[]"]) (simp add: broadcast_accepted)
  next
    case (Some s)
    have "set (store st s) \<subseteq> (\<Union>r. set (store st r))" by blast
    then show ?thesis
      using None Some by (intro exI [of _ "store st s"]) (simp add: broadcast_pushes)
  qed
qed

lemma broadcast_next_controller:
  "next_controller (snd (broadcast now body st)) = next_controller st"
proof (cases "validate body")
  case (Some failure)
  then show ?thesis by (simp add: broadcast_def)
next
  case None
  then show ?thesis
    by (cases "channels_get st (get body ''channelId'')")
       (simp_all add: broadcast_accepted fan_out_next_controller)
qed

lemma broadcast_store_subset:
  "set (store (snd (broadcast now body st)) r) \<subseteq> set (store st r)"
proof (cases "validate body")
  case (Some failure)
  then show ?thesis by (simp add: broadcast_def)
next
  case None
  show ?thesis
  proof (cases "channels_get st (get body ''channelId'')")
    case n: None
    then show ?thesis using None by (simp add: broadcast_accepted)
  next
    case (Some s)
    then show ?thesis using None by (auto simp: broadcast_store)
  qed
qed

lemma stream_effect:
  "stream now channelId st =
     (let subs = (case map_of (channels st) channelId of Some s \<Rightarrow> s | None \<Rightarrow> next_set st);
          members = set_add (next_controller st)
                      (case map_of (channels st) channelId of Some s \<Rightarrow> store st s | None \<Rightarrow> [])
      in ((subs, next_controller st),
          st \<lparr> channels := (case map_of (channels st) channelId of Some s \<Rightarrow> channels st
                              | None \<Rightarrow> AList.update channelId (next_set st) (channels st)),
               store := (store st)(subs := members),
               next_set := (case map_of (channels st) channelId of Some s \<Rightarrow> next_set st
                              | None \<Rightarrow> Suc (next_set st)),
               next_controller := Suc (next_controller st),
               writable := (writable st)(next_controller st := True),
               pushes := pushes st @ [(next_controller st,
                                       welcomeMsg channelId (length members) now, True)],
               encodings := encodings st @ [welcomeMsg channelId (length members) now] \<rparr>))"
  by (cases "map_of (channels st) channelId")
     (simp_all add: stream_def getOrCreateChannel_def enqueue_def encode_def Let_def)

lemma step_fresh: "fresh st \<Longrightarrow> fresh (step r st)"
proof (cases r)
  case (Stream now channelId)
  assume "fresh st"
  then show ?thesis using Stream
    by (auto simp: fresh_def stream_effect Let_def set_add_def less_Suc_eq split: option.splits if_splits)
next
  case (Broadcast now body)
  assume f: "fresh st"
  obtain cs where cs: "set cs \<subseteq> (\<Union>r. set (store st r))"
    "pushes (snd (broadcast now body st))
          = pushes st @ map (\<lambda>c. (c, Frame ''position'' (broadcast_event now body), writable st c)) cs"
    using broadcast_shape by blast
  have "\<forall>c \<in> set cs. c < next_controller st"
    using cs(1) f by (auto simp: fresh_def)
  then have "\<forall>p \<in> set (pushes (snd (broadcast now body st))). fst p < next_controller st"
    using f cs(2) by (auto simp: fresh_def)
  moreover have "\<forall>r. \<forall>c \<in> set (store (snd (broadcast now body st)) r). c < next_controller st"
    using f broadcast_store_subset by (fastforce simp: fresh_def)
  ultimately show ?thesis using Broadcast
    by (simp add: fresh_def broadcast_next_controller)
next
  case (Cancel channelId subs controller)
  assume "fresh st"
  then show ?thesis using Cancel
    by (auto simp: fresh_def cancel_def Let_def set_delete_def split: if_splits)
next
  case (Sink_closed c)
  assume "fresh st"
  then show ?thesis using Sink_closed by (simp add: fresh_def)
qed

lemma run_fresh: "fresh st \<Longrightarrow> fresh (run rs st)"
  by (induction rs arbitrary: st) (simp_all add: step_fresh)

lemma stream_next_controller: "next_controller (snd (stream now channelId st)) = Suc (next_controller st)"
  by (simp add: stream_effect Let_def)

lemma cancel_next_controller: "next_controller (cancel channelId subs controller st) = next_controller st"
  by (simp add: cancel_def Let_def)

lemma step_next_controller: "next_controller st \<le> next_controller (step r st)"
proof (cases r)
  case (Stream now channelId)
  then show ?thesis by (simp add: stream_next_controller)
next
  case (Broadcast now body)
  then show ?thesis by (simp add: broadcast_next_controller)
next
  case (Cancel channelId subs controller)
  then show ?thesis by (simp add: cancel_next_controller)
next
  case (Sink_closed c)
  then show ?thesis by simp
qed

lemma step_frames:
  assumes "c < next_controller st"
  shows "\<exists>new. frames_of c (step r st) = frames_of c st @ new
               \<and> (\<forall>f \<in> set new. frame_name f = ''position'')"
proof (cases r)
  case (Stream now channelId)
  then have "frames_of c (step r st) = frames_of c st @ []"
    using assms by (simp add: frames_of_def stream_effect Let_def)
  then show ?thesis by (intro exI [of _ "[]"]) simp
next
  case (Broadcast now body)
  obtain cs where cs: 
    "pushes (snd (broadcast now body st))
          = pushes st @ map (\<lambda>c. (c, Frame ''position'' (broadcast_event now body), writable st c)) cs"
    using broadcast_shape by blast
  let ?new = "map (\<lambda>p. fst (snd p)) (filter (\<lambda>p. fst p = c)
       (map (\<lambda>c. (c, Frame ''position'' (broadcast_event now body), writable st c)) cs))"
  have "frames_of c (step r st) = frames_of c st @ ?new"
    using Broadcast cs by (simp add: frames_of_def)
  moreover have "\<forall>f \<in> set ?new. frame_name f = ''position''"
    by auto
  ultimately show ?thesis by blast
next
  case (Cancel channelId subs controller)
  then have "frames_of c (step r st) = frames_of c st @ []"
    by (simp add: frames_of_def cancel_def Let_def)
  then show ?thesis by (intro exI [of _ "[]"]) simp
next
  case (Sink_closed c')
  then have "frames_of c (step r st) = frames_of c st @ []"
    by (simp add: frames_of_def)
  then show ?thesis by (intro exI [of _ "[]"]) simp
qed

lemma run_frames:
  "c < next_controller st \<Longrightarrow>
     \<exists>new. frames_of c (run rs st) = frames_of c st @ new
               \<and> (\<forall>f \<in> set new. frame_name f = ''position'')"
proof (induction rs arbitrary: st)
  case Nil
  have "frames_of c (run [] st) = frames_of c st @ []" by simp
  then show ?case by (intro exI [of _ "[]"]) simp
next
  case (Cons r rs)
  obtain new1 where n1: "frames_of c (step r st) = frames_of c st @ new1"
      "\<forall>f \<in> set new1. frame_name f = ''position''"
    using step_frames [OF Cons.prems] by blast
  have "c < next_controller (step r st)"
    using Cons.prems step_next_controller [of st r] by simp
  then obtain new2 where n2: "frames_of c (run rs (step r st)) = frames_of c (step r st) @ new2"
      "\<forall>f \<in> set new2. frame_name f = ''position''"
    using Cons.IH by blast
  have "frames_of c (run (r # rs) st) = frames_of c st @ (new1 @ new2)"
    using n1(1) n2(1) by simp
  moreover have "\<forall>f \<in> set (new1 @ new2). frame_name f = ''position''"
    using n1(2) n2(2) by auto
  ultimately show ?case by blast
qed


lemma stream_result:
  assumes "stream now channelId st = ((subs, controller), st1)"
  shows "controller = next_controller st"
    and "map_of (channels st1) channelId = Some subs"
    and "controller \<in> set (store st1 subs)"
    and "pushes st1 = pushes st @ [(controller, welcomeMsg channelId (length (store st1 subs)) now, True)]"
    and "next_controller st1 = Suc (next_controller st)"
proof -
  show "controller = next_controller st"
    using assms by (simp add: stream_effect Let_def)
  show "next_controller st1 = Suc (next_controller st)"
    using assms stream_next_controller [of now channelId st] by simp
  show "map_of (channels st1) channelId = Some subs"
  proof (cases "map_of (channels st) channelId")
    case None
    with assms show ?thesis by (auto simp: stream_effect Let_def update_Some_unfold)
  next
    case (Some s)
    with assms show ?thesis by (auto simp: stream_effect Let_def)
  qed
  show "controller \<in> set (store st1 subs)"
  proof (cases "map_of (channels st) channelId")
    case None
    with assms show ?thesis by (auto simp: stream_effect Let_def set_add_def)
  next
    case (Some s)
    with assms show ?thesis by (auto simp: stream_effect Let_def set_add_def)
  qed
  show "pushes st1 = pushes st @ [(controller, welcomeMsg channelId (length (store st1 subs)) now, True)]"
  proof (cases "map_of (channels st) channelId")
    case None
    with assms show ?thesis by (auto simp: stream_effect Let_def)
  next
    case (Some s)
    with assms show ?thesis by (auto simp: stream_effect Let_def)
  qed
qed

text \<open>
  C7. In any run of the service, when a client opens a stream on a channel, the first
  frame pushed to its controller is a \<open>connected\<close> frame whose payload holds the requested
  channel id, the size of that channel's set with the new controller in it (so at least
  1) and the timestamp; every frame pushed to that controller afterwards, whatever
  happens next, is a \<open>position\<close> frame.
\<close>

theorem stream_welcome_first:
  assumes "stream now channelId (run before initial) = ((subs, controller), st1)"
  shows "\<exists>rest.
           frames_of controller (run after st1) =
             Frame ''connected''
               (JObject [(''channelId'', JString channelId),
                         (''subscriberCount'', JNumber (Finite (real (length (store st1 subs))))),
                         (''timestamp'', JString now)]) # rest
         \<and> (\<forall>f \<in> set rest. frame_name f = ''position'')
         \<and> map_of (channels st1) channelId = Some subs
         \<and> controller \<in> set (store st1 subs)
         \<and> 1 \<le> length (store st1 subs)"
proof -
  let ?st = "run before initial"
  note r = stream_result [OF assms]
  have f: "fresh ?st"
    by (simp add: run_fresh fresh_initial)
  have none_before: "frames_of controller ?st = []"
    using f unfolding r(1) by (auto simp: fresh_def frames_of_def filter_empty_conv)
  have first: "frames_of controller st1 = [welcomeMsg channelId (length (store st1 subs)) now]"
    using none_before by (simp add: frames_of_def r(4))
  have size: "1 \<le> length (store st1 subs)"
    using r(3) by (cases "store st1 subs") simp_all
  have "controller < next_controller st1"
    by (simp add: r(1) r(5))
  then obtain rest where rest: "frames_of controller (run after st1) = frames_of controller st1 @ rest"
      "\<forall>f \<in> set rest. frame_name f = ''position''"
    using run_frames by blast
  have "frames_of controller (run after st1) =
          Frame ''connected''
               (JObject [(''channelId'', JString channelId),
                         (''subscriberCount'', JNumber (Finite (real (length (store st1 subs))))),
                         (''timestamp'', JString now)]) # rest"
    using rest(1) first by (simp add: welcomeMsg_def)
  with rest(2) r(2) r(3) size show ?thesis by blast
qed

theorem stream_welcome_first_witness:
  "stream ''t1'' ''c2'' (run [Stream ''t0'' ''c2''] initial) = ((0, 1), two_subscribers)
   \<and> frames_of 1 (run [Broadcast ''t2'' (position_request ''c2'')] two_subscribers)
       = [Frame ''connected''
            (JObject [(''channelId'', JString ''c2''),
                      (''subscriberCount'', JNumber (Finite 2)),
                      (''timestamp'', JString ''t1'')]),
          Frame ''position'' (broadcast_event ''t2'' (position_request ''c2''))]"
proof -
  have a: "stream ''t1'' ''c2'' (run [Stream ''t0'' ''c2''] initial) = ((0, 1), two_subscribers)"
    by (simp add: sample_defs)
  have b: "frames_of 1 (run [Broadcast ''t2'' (position_request ''c2'')] two_subscribers)
       = [welcomeMsg ''c2'' 2 ''t1'',
          Frame ''position'' (broadcast_event ''t2'' (position_request ''c2''))]"
    by (simp add: frames_of_def broadcast_pushes position_request_valid
          position_request_channelId channels_get_def two_subscribers_facts numeral_2_eq_2)
  from stream_welcome_first [OF a, of "[Broadcast ''t2'' (position_request ''c2'')]"] a b
  show ?thesis by (simp add: welcomeMsg_def)
qed

subsection \<open>Nearby filtering\<close>

lemma mset_insert_by: "mset (insert_by f x ys) = add_mset x (mset ys)"
  by (induction ys) simp_all

lemma mset_Array_sort: "mset (Array_sort f xs) = mset xs"
  by (induction xs) (simp_all add: mset_insert_by)

lemma set_insert_by: "set (insert_by f x ys) = insert x (set ys)"
  by (induction ys) auto

lemma set_Array_sort: "set (Array_sort f xs) = set xs"
  by (induction xs) (simp_all add: set_insert_by)

lemma num_le_not_NaN: "num_le a b \<Longrightarrow> a \<noteq> NaN \<and> b \<noteq> NaN"
  by (cases a; cases b) simp_all

lemma num_le_trans: "num_le a b \<Longrightarrow> num_le b c \<Longrightarrow> num_le a c"
  by (cases a; cases b; cases c) simp_all

lemma comparator_positive:
  "a \<noteq> NaN \<Longrightarrow> b \<noteq> NaN \<Longrightarrow> num_lt (Finite 0) (num_sub a b) \<longleftrightarrow> \<not> num_le a b"
  by (cases a; cases b) auto

lemma comparator_not_positive:
  "a \<noteq> NaN \<Longrightarrow> b \<noteq> NaN \<Longrightarrow> \<not> num_le a b \<Longrightarrow> num_le b a"
  by (cases a; cases b) auto

lemma sorted_insert_by:
  assumes "key x \<noteq> NaN" and "\<forall>y \<in> set ys. key y \<noteq> NaN"
    and "sorted_wrt (\<lambda>a b. num_le (key a) (key b)) ys"
  shows "sorted_wrt (\<lambda>a b. num_le (key a) (key b))
           (insert_by (\<lambda>a b. num_sub (key a) (key b)) x ys)"
  using assms
proof (induction ys)
  case Nil
  then show ?case by simp
next
  case (Cons y ys)
  show ?case
  proof (cases "num_le (key x) (key y)")
    case True
    then have "\<forall>z \<in> set ys. num_le (key x) (key z)"
      using Cons.prems(3) by (auto intro: num_le_trans)
    then show ?thesis
      using True Cons.prems by (simp add: comparator_positive)
  next
    case False
    then have "num_le (key y) (key x)"
      using Cons.prems by (simp add: comparator_not_positive)
    then show ?thesis
      using False Cons by (auto simp: comparator_positive set_insert_by)
  qed
qed

lemma sorted_Array_sort:
  "\<forall>y \<in> set xs. key y \<noteq> NaN \<Longrightarrow>
     sorted_wrt (\<lambda>a b. num_le (key a) (key b)) (Array_sort (\<lambda>a b. num_sub (key a) (key b)) xs)"
  by (induction xs) (simp_all add: sorted_insert_by set_Array_sort)

text \<open>
  C9. For every position, candidate list and radius (and whatever number the distance
  function returns), \<open>findNearby\<close> returns, up to order, exactly the records of the
  candidates whose rounded distance is at most the radius, each record holding the
  candidate's profile id and location, the rounded distance, the label and the status;
  every returned record has \<open>distanceMeters \<le> maxRadiusMeters\<close>; and the list is in
  non-decreasing order of \<open>distanceMeters\<close>.
\<close>

theorem findNearby_within_radius_sorted:
  "mset (findNearby calculateDistance myPosition candidates maxRadiusMeters bleRangeMeters) =
     mset (filter (\<lambda>r. num_le (distanceMeters r) maxRadiusMeters)
       (map (\<lambda>c. \<lparr> PresenceRecord.profileId = ProfileLocation.profileId c,
                    PresenceRecord.location = ProfileLocation.location c,
                    distanceMeters = Math_round (calculateDistance myPosition (ProfileLocation.location c)),
                    distanceLabel = formatDistance (calculateDistance myPosition (ProfileLocation.location c)),
                    status = classifyDistance (calculateDistance myPosition (ProfileLocation.location c))
                               bleRangeMeters maxRadiusMeters \<rparr>)
            candidates))
   \<and> (\<forall>r \<in> set (findNearby calculateDistance myPosition candidates maxRadiusMeters bleRangeMeters).
         num_le (distanceMeters r) maxRadiusMeters)
   \<and> sorted_wrt (\<lambda>a b. num_le (distanceMeters a) (distanceMeters b))
        (findNearby calculateDistance myPosition candidates maxRadiusMeters bleRangeMeters)"
proof -
  let ?records = "filter (\<lambda>r. num_le (distanceMeters r) maxRadiusMeters)
       (map (\<lambda>c. \<lparr> PresenceRecord.profileId = ProfileLocation.profileId c,
                    PresenceRecord.location = ProfileLocation.location c,
                    distanceMeters = Math_round (calculateDistance myPosition (ProfileLocation.location c)),
                    distanceLabel = formatDistance (calculateDistance myPosition (ProfileLocation.location c)),
                    status = classifyDistance (calculateDistance myPosition (ProfileLocation.location c))
                               bleRangeMeters maxRadiusMeters \<rparr>)
            candidates)"
  have def: "findNearby calculateDistance myPosition candidates maxRadiusMeters bleRangeMeters
               = Array_sort (\<lambda>a b. num_sub (distanceMeters a) (distanceMeters b)) ?records"
    by (simp add: findNearby_def Let_def)
  have within: "\<forall>r \<in> set ?records. num_le (distanceMeters r) maxRadiusMeters"
    by simp
  then have "\<forall>r \<in> set ?records. distanceMeters r \<noteq> NaN"
    using num_le_not_NaN by blast
  then have "sorted_wrt (\<lambda>a b. num_le (distanceMeters a) (distanceMeters b))
        (Array_sort (\<lambda>a b. num_sub (distanceMeters a) (distanceMeters b)) ?records)"
    by (rule sorted_Array_sort)
  with within show ?thesis
    unfolding def by (simp only: mset_Array_sort set_Array_sort simp_thms)
qed

theorem findNearby_within_radius_sorted_witness:
  "findNearby along_latitude origin sample_candidates (Finite 5000) (Finite 30) =
     [\<lparr> PresenceRecord.profileId = ''near'',
        PresenceRecord.location = \<lparr> lat = Finite (25 / 2), lng = Finite 0 \<rparr>,
        distanceMeters = Finite 13, distanceLabel = Metres (Finite 13), status = nearby \<rparr>,
      \<lparr> PresenceRecord.profileId = ''mid'',
        PresenceRecord.location = \<lparr> lat = Finite (24004 / 10), lng = Finite 0 \<rparr>,
        distanceMeters = Finite 2400, distanceLabel = Kilometres (Finite (24004 / 10)),
        status = in_range \<rparr>]
   \<and> list_all (\<lambda>r. num_le (distanceMeters r) (Finite 5000))
        (findNearby along_latitude origin sample_candidates (Finite 5000) (Finite 30))
   \<and> sorted_wrt (\<lambda>a b. num_le (distanceMeters a) (distanceMeters b))
        (findNearby along_latitude origin sample_candidates (Finite 5000) (Finite 30))"
proof -
  have computed: "findNearby along_latitude origin sample_candidates (Finite 5000) (Finite 30) =
     [\<lparr> PresenceRecord.profileId = ''near'',
        PresenceRecord.location = \<lparr> lat = Finite (25 / 2), lng = Finite 0 \<rparr>,
        distanceMeters = Finite 13, distanceLabel = Metres (Finite 13), status = nearby \<rparr>,
      \<lparr> PresenceRecord.profileId = ''mid'',
        PresenceRecord.location = \<lparr> lat = Finite (24004 / 10), lng = Finite 0 \<rparr>,
        distanceMeters = Finite 2400, distanceLabel = Kilometres (Finite (24004 / 10)),
        status = in_range \<rparr>]"
    by (simp add: findNearby_def along_latitude_def origin_def sample_candidates_def
          formatDistance_def classifyDistance_def Let_def)
  note t = findNearby_within_radius_sorted
             [of along_latitude origin sample_candidates "Finite 5000" "Finite 30"]
  from t have "\<forall>r \<in> set (findNearby along_latitude origin sample_candidates (Finite 5000) (Finite 30)).
         num_le (distanceMeters r) (Finite 5000)"
    by (rule conjunct1 [OF conjunct2])
  then have within:
    "list_all (\<lambda>r. num_le (distanceMeters r) (Finite 5000))
        (findNearby along_latitude origin sample_candidates (Finite 5000) (Finite 30))"
    by (simp only: list_all_iff)
  from t have sorted:
    "sorted_wrt (\<lambda>a b. num_le (distanceMeters a) (distanceMeters b))
        (findNearby along_latitude origin sample_candidates (Finite 5000) (Finite 30))"
    by (rule conjunct2 [OF conjunct2])
  show ?thesis
    by (rule conjI [OF computed conjI [OF within sorted]])
qed

subsection \<open>Where the handlers part from their description\<close>

text \<open>
  C1. The registry is meant to hold no channel with an empty set, but the fan-out loop
  leaves one: when the sink of the only subscriber of \<open>c1\<close> has stopped taking frames
  and a publish removes that subscriber, the enumerator goes on listing \<open>c1\<close> with zero
  subscribers. It is the same when the client has gone away and the \<open>cancel\<close> callback has
  run on the reason of the cancellation (here 1, which is in no set) before the publish.
\<close>

theorem broadcast_leaves_empty_channel:
  "channelList (run [Stream ''t0'' ''c1'', Sink_closed 0,
                     Broadcast ''t1'' (position_request ''c1'')] initial) = [(''c1'', 0)]
   \<and> channelList (run [Stream ''t0'' ''c1'', Cancel ''c1'' 0 1, Sink_closed 0,
                        Broadcast ''t1'' (position_request ''c1'')] initial) = [(''c1'', 0)]"
proof -
  have v: "validate (position_request ''c1'') = None"
    by (simp add: position_request_valid)
  let ?before = "step (Sink_closed 0) (step (Stream ''t0'' ''c1'') initial)"
  have before:
    "channels ?before = [(''c1'', 0)]" "store ?before 0 = [0]" "writable ?before 0 = False"
    by (simp_all add: stream_def getOrCreateChannel_def initial_def enqueue_def encode_def
          set_add_def Let_def)
  have a: "channels_get ?before (get (position_request ''c1'') ''channelId'') = Some 0"
    by (simp only: channels_get_def position_request_channelId before(1)) simp
  have "store (snd (broadcast ''t1'' (position_request ''c1'') ?before)) 0
          = filter (writable ?before) (store ?before 0)"
    by (rule broadcast_only_channel(2) [OF v a before(1)])
  then have emptied: "store (snd (broadcast ''t1'' (position_request ''c1'') ?before)) 0 = []"
    by (simp only: before filter.simps if_False)
  have "channelList (snd (broadcast ''t1'' (position_request ''c1'') ?before)) = [(''c1'', 0)]"
    unfolding channelList_def broadcast_only_channel(1) [OF v a before(1)]
    by (simp only: list.map prod.case emptied list.size)
  then have one: "channelList (run [Stream ''t0'' ''c1'', Sink_closed 0,
                     Broadcast ''t1'' (position_request ''c1'')] initial) = [(''c1'', 0)]"
    by (simp only: run.simps step.simps(2))
  let ?cancelled =
    "step (Sink_closed 0) (step (Cancel ''c1'' 0 1) (step (Stream ''t0'' ''c1'') initial))"
  have cancelled:
    "channels ?cancelled = [(''c1'', 0)]" "store ?cancelled 0 = [0]"
    "writable ?cancelled 0 = False"
    by (simp_all add: cancel_def set_delete_def stream_def getOrCreateChannel_def initial_def
          enqueue_def encode_def set_add_def Let_def)
  have b: "channels_get ?cancelled (get (position_request ''c1'') ''channelId'') = Some 0"
    by (simp only: channels_get_def position_request_channelId cancelled(1)) simp
  have "store (snd (broadcast ''t1'' (position_request ''c1'') ?cancelled)) 0
          = filter (writable ?cancelled) (store ?cancelled 0)"
    by (rule broadcast_only_channel(2) [OF v b cancelled(1)])
  then have emptied': "store (snd (broadcast ''t1'' (position_request ''c1'') ?cancelled)) 0 = []"
    by (simp only: cancelled filter.simps if_False)
  have "channelList (snd (broadcast ''t1'' (position_request ''c1'') ?cancelled)) = [(''c1'', 0)]"
    unfolding channelList_def broadcast_only_channel(1) [OF v b cancelled(1)]
    by (simp only: list.map prod.case emptied' list.size)
  then have two: "channelList (run [Stream ''t0'' ''c1'', Cancel ''c1'' 0 1, Sink_closed 0,
                        Broadcast ''t1'' (position_request ''c1'')] initial) = [(''c1'', 0)]"
    by (simp only: run.simps step.simps(2))
  from one two show ?thesis by (rule conjI)
qed

text \<open>
  C2. A publish request that carries a channel id, a publisher id and a location with
  numeric \<open>lat\<close> and \<open>lng\<close> is answered with 400 when the latitude is 0: the guard tests the
  truthiness of \<open>lat\<close>, and the number 0 is falsy.
\<close>

theorem broadcast_rejects_zero_latitude:
  "broadcast ''t0''
     (JObject [(''channelId'', JString ''c1''),
               (''profileId'', JString ''p1''),
               (''location'', JObject [(''lat'', JNumber (Finite 0)),
                                       (''lng'', JNumber (Finite (13405 / 1000)))])])
     initial
   = (Response 400 (JObject [(''error'', JString location_message)]), initial)"
  by (simp add: broadcast_def validate_def opt_get_def)

subsection \<open>Consent\<close>

text \<open>
  C10. For every consent record \<open>c\<close>, \<open>revokeConsent c\<close> has \<open>revokedAt\<close> set, has
  \<open>locationTracking\<close> and \<open>bleDiscovery\<close> false, keeps every other field of \<open>c\<close>, and is
  never valid.
\<close>

theorem revokeConsent_invalid:
  "revokedAt (revokeConsent now c) = Some now
   \<and> locationTracking (revokeConsent now c) = False
   \<and> bleDiscovery (revokeConsent now c) = False
   \<and> LocationConsent.profileId (revokeConsent now c) = LocationConsent.profileId c
   \<and> grantedAt (revokeConsent now c) = grantedAt c
   \<and> LocationConsent.more (revokeConsent now c) = LocationConsent.more c
   \<and> isConsentValid (Some (revokeConsent now c)) = False"
  by (cases now) (simp_all add: revokeConsent_def isConsentValid_def)

theorem revokeConsent_invalid_witness:
  "isConsentValid (Some (createConsent ''2026-01-01T00:00:00.000Z'' ''p1'' (Some True) None)) = True
   \<and> isConsentValid (Some (revokeConsent ''2026-01-02T00:00:00.000Z''
        (createConsent ''2026-01-01T00:00:00.000Z'' ''p1'' (Some True) None))) = False"
  using revokeConsent_invalid [of "''2026-01-02T00:00:00.000Z''"
      "createConsent ''2026-01-01T00:00:00.000Z'' ''p1'' (Some True) None"]
  by (simp add: createConsent_def isConsentValid_def)

end
